theory Spec2Isabelle
  imports Main
begin

section \<open>Wire data\<close>

text \<open>
  Everything that travels over a socket is a byte string: module identifiers (set as the
  ZeroMQ \<^verbatim>\<open>IDENTITY\<close>), payloads and serialised tuples. \<open>Raw s\<close> is a plain byte
  string, \<open>Uid n\<close> the \<open>n\<close>-th identifier issued by \<^verbatim>\<open>uid()\<close>, and \<open>Packed i d\<close>
  stands for \<^verbatim>\<open>msgpack.packb((i, d))\<close>. The payload \<open>None\<close> is Python's \<^verbatim>\<open>None\<close>.
  msgpack is an external library; its round trip is taken to be exact, which the free
  constructor \<open>Packed\<close> expresses.
\<close>

datatype bytes = Raw string | Uid nat | Packed bytes "bytes option"

type_synonym ident = bytes
type_synonym payload = "bytes option"

datatype error = ValueError | KeyError | AttributeError | AssertionError | IndexError | UnpackException

definition packb :: "ident \<times> payload \<Rightarrow> bytes" where
  "packb p = Packed (fst p) (snd p)"

text \<open>\<^verbatim>\<open>msgpack.unpackb\<close> followed by the tuple unpacking \<^verbatim>\<open>in_id, data = ...\<close>;
  \<open>None\<close> when either raises.\<close>

fun unpackb :: "bytes \<Rightarrow> (ident \<times> payload) option" where
  "unpackb (Packed i d) = Some (i, d)"
| "unpackb _ = None"

section \<open>Sparse matrices and connectivity objects\<close>

text \<open>A \<^verbatim>\<open>scipy.sparse.lil_matrix\<close>: its shape and its stored cells.\<close>

record matrix =
  m_shape :: "int \<times> int"
  m_cells :: "((int \<times> int) \<times> int) list"

record connectivity =
  cid :: ident
  N_src :: int
  N_dest :: int
  N_mult :: int
  c_data :: "(string \<times> matrix) list"
  keys_plus :: "string list"
  keys_minus :: "string list"

text \<open>Assignment \<^verbatim>\<open>d[k] = v\<close> on a dict kept as an association list.\<close>

fun dict_set :: "'k \<Rightarrow> 'v \<Rightarrow> ('k \<times> 'v) list \<Rightarrow> ('k \<times> 'v) list" where
  "dict_set k v [] = [(k, v)]"
| "dict_set k v ((k', v') # kvs) =
     (if k' = k then (k, v) # kvs else (k', v') # dict_set k v kvs)"

text \<open>
  \<^verbatim>\<open>_make_matrix(shape, dtype)\<close> calls \<^verbatim>\<open>scipy.sparse.lil_matrix(shape)\<close>, an
  external constructor that gives the empty matrix of that shape and rejects a negative
  dimension with \<^verbatim>\<open>ValueError\<close>.
\<close>

definition make_matrix :: "int \<times> int \<Rightarrow> error + matrix" where
  "make_matrix shp =
     (if fst shp < 0 \<or> snd shp < 0 then Inl ValueError
      else Inr \<lparr>m_shape = shp, m_cells = []\<rparr>)"

text \<open>The matrix attribute \<^verbatim>\<open>.T\<close>.\<close>

definition mat_T :: "matrix \<Rightarrow> matrix" where
  "mat_T m = \<lparr>m_shape = prod.swap (m_shape m),
              m_cells = map (\<lambda>(ij, v). (prod.swap ij, v)) (m_cells m)\<rparr>"

definition shape :: "connectivity \<Rightarrow> int \<times> int" where
  "shape c = (N_src c, N_dest c)"

text \<open>\<^verbatim>\<open>'/'.join(parts)\<close> and \<^verbatim>\<open>key.split('/')\<close>.\<close>

fun str_join :: "string list \<Rightarrow> string" where
  "str_join [] = []"
| "str_join [p] = p"
| "str_join (p # q # ps) = p @ CHR ''/'' # str_join (q # ps)"

fun str_split :: "string \<Rightarrow> string list" where
  "str_split [] = [[]]"
| "str_split (x # xs) =
     (if x = CHR ''/'' then [] # str_split xs
      else (case str_split xs of [] \<Rightarrow> [[x]] | w # ws \<Rightarrow> (x # w) # ws))"

text \<open>
  \<^verbatim>\<open>_make_key(syn, dir, param)\<close> joins \<^verbatim>\<open>str(syn)\<close>, \<^verbatim>\<open>dir\<close> and \<^verbatim>\<open>param\<close>
  with slashes; the first argument here is \<^verbatim>\<open>str(syn)\<close>.
\<close>

definition make_key :: "string \<Rightarrow> string \<Rightarrow> string \<Rightarrow> string" where
  "make_key syn dir param = str_join [syn, dir, param]"

text \<open>
  \<^verbatim>\<open>BaseConnectivity.__init__\<close>. The first argument is the identifier that \<^verbatim>\<open>uid()\<close>
  returns. The three \<^verbatim>\<open>assert\<close> statements come first, then one integer matrix per
  direction is created under the keys \<^verbatim>\<open>0/+/conn\<close> and \<^verbatim>\<open>0/-/conn\<close>.
\<close>

definition BaseConnectivity_init :: "ident \<Rightarrow> int \<Rightarrow> int \<Rightarrow> int \<Rightarrow> error + connectivity" where
  "BaseConnectivity_init new_id n_src n_dest n_mult =
     (if n_src = 0 \<or> n_dest = 0 \<or> n_mult = 0 then Inl AssertionError
      else case make_matrix (n_src, n_dest) of
        Inl e \<Rightarrow> Inl e
      | Inr z \<Rightarrow>
          Inr \<lparr>cid = new_id, N_src = n_src, N_dest = n_dest, N_mult = n_mult,
               c_data = dict_set (make_key ''0'' ''-'' ''conn'') z
                          (dict_set (make_key ''0'' ''+'' ''conn'') z []),
               keys_plus = [make_key ''0'' ''+'' ''conn''],
               keys_minus = [make_key ''0'' ''-'' ''conn'']\<rparr>)"

text \<open>
  The body of the loop of \<^verbatim>\<open>transpose\<close> for one key: split the key, read the direction
  at index 1 (\<^verbatim>\<open>IndexError\<close> when the key has no slash), swap it (\<^verbatim>\<open>ValueError\<close> when
  it is neither \<^verbatim>\<open>+\<close> nor \<^verbatim>\<open>-\<close>) and join the parts again. The result is the new
  direction and the new key.
\<close>

definition flip_key :: "string \<Rightarrow> error + (string \<times> string)" where
  "flip_key old_key =
     (let key_split = str_split old_key
      in if length key_split < 2 then Inl IndexError
         else let old_dir = key_split ! 1
              in if old_dir = ''+'' then Inr (''-'', str_join (key_split[1 := ''-'']))
                 else if old_dir = ''-'' then Inr (''+'', str_join (key_split[1 := ''+'']))
                 else Inl ValueError)"

text \<open>
  The loop \<^verbatim>\<open>for old_key in self._data.keys()\<close>: the second argument is \<^verbatim>\<open>self._data\<close>,
  the third the object \<^verbatim>\<open>c\<close> under construction.
\<close>

fun transpose_loop :: "string list \<Rightarrow> (string \<times> matrix) list \<Rightarrow> connectivity
    \<Rightarrow> error + connectivity" where
  "transpose_loop [] self_data c = Inr c"
| "transpose_loop (old_key # keys) self_data c =
     (case flip_key old_key of
        Inl e \<Rightarrow> Inl e
      | Inr (new_dir, new_key) \<Rightarrow>
          (case map_of self_data old_key of
             None \<Rightarrow> Inl KeyError
           | Some m \<Rightarrow>
               transpose_loop keys self_data
                 (if new_dir = ''+''
                  then c\<lparr>c_data := dict_set new_key (mat_T m) (c_data c),
                         keys_plus := keys_plus c @ [new_key]\<rparr>
                  else c\<lparr>c_data := dict_set new_key (mat_T m) (c_data c),
                         keys_minus := keys_minus c @ [new_key]\<rparr>)))"

text \<open>
  \<^verbatim>\<open>transpose\<close>. The new object is built by \<^verbatim>\<open>BaseConnectivity(self.N_dest, self.N_dest)\<close>,
  with the default \<^verbatim>\<open>N_mult = 1\<close>; its two key lists are emptied and the loop fills it.
\<close>

definition transpose_conn :: "ident \<Rightarrow> connectivity \<Rightarrow> error + connectivity" where
  "transpose_conn new_id self =
     (case BaseConnectivity_init new_id (N_dest self) (N_dest self) 1 of
        Inl e \<Rightarrow> Inl e
      | Inr c \<Rightarrow>
          transpose_loop (map fst (c_data self)) (c_data self)
            (c\<lparr>keys_plus := [], keys_minus := []\<rparr>))"

section \<open>Modules\<close>

datatype netmode = NetNone | Ctrl | In | Out | Full

text \<open>
  The fields of \<^verbatim>\<open>BaseModule\<close>. \<^verbatim>\<open>conn_dict\<close> is a dict with exactly the two keys
  \<^verbatim>\<open>'in'\<close> and \<^verbatim>\<open>'out'\<close>, created by the constructor and never removed; each holds a
  dict from peer ID to connectivity object, kept here as an association list whose key
  order stands for the dict's iteration order.
\<close>

record module =
  mod_id :: ident
  net :: netmode
  port_data :: int
  port_ctrl :: int
  in_data :: "(ident \<times> payload) list"
  out_data :: "(ident \<times> payload) list"
  conn_in :: "(ident \<times> connectivity) list"
  conn_out :: "(ident \<times> connectivity) list"

text \<open>\<^verbatim>\<open>dict.keys()\<close> of Python 2: a fresh list of the keys.\<close>

definition in_ids :: "module \<Rightarrow> ident list" where
  "in_ids m = map fst (conn_in m)"

definition out_ids :: "module \<Rightarrow> ident list" where
  "out_ids m = map fst (conn_out m)"

subsection \<open>The barrier synchronisation \<^verbatim>\<open>_sync\<close>\<close>

text \<open>
  The first loop of the send phase. For every entry of the outbound buffer the frame is
  sent first and the destination is removed from \<^verbatim>\<open>send_ids\<close> afterwards;
  \<^verbatim>\<open>list.remove\<close> raises \<^verbatim>\<open>ValueError\<close> when the element is absent. The result is
  the frames sent so far and either the error or the IDs left over.
\<close>

fun send_loop :: "ident list \<Rightarrow> (ident \<times> payload) list \<Rightarrow> bytes list
    \<Rightarrow> bytes list \<times> (error + ident list)" where
  "send_loop send_ids [] sent = (sent, Inr send_ids)"
| "send_loop send_ids ((out_id, data) # rest) sent =
     (let sent' = sent @ [packb (out_id, data)]
      in if out_id \<in> set send_ids
         then send_loop (remove1 out_id send_ids) rest sent'
         else (sent', Inl ValueError))"

text \<open>The whole send phase: the buffered entries, then a \<^verbatim>\<open>None\<close> tuple for every
  destination that is left.\<close>

definition send_phase :: "module \<Rightarrow> bytes list \<times> error option" where
  "send_phase m =
     (case send_loop (out_ids m) (out_data m) [] of
        (sent, Inl e) \<Rightarrow> (sent, Some e)
      | (sent, Inr send_ids) \<Rightarrow> (sent @ map (\<lambda>out_id. packb (out_id, None)) send_ids, None))"

text \<open>
  How a call ends: it returns, it raises, or it waits for ever in a blocking
  \<^verbatim>\<open>recv()\<close> because no further frame arrives.
\<close>

datatype 'a outcome = Returned 'a | Raised error | Blocked

text \<open>
  The receive loop \<^verbatim>\<open>while recv_ids: ...\<close>. The third argument is the queue of frames
  that the data socket delivers, oldest first; the loop returns the inbound buffer and
  the frames it has not read.
\<close>

fun recv_loop :: "ident list \<Rightarrow> (ident \<times> payload) list \<Rightarrow> bytes list
    \<Rightarrow> ((ident \<times> payload) list \<times> bytes list) outcome" where
  "recv_loop [] buf queue = Returned (buf, queue)"
| "recv_loop (r # rs) buf [] = Blocked"
| "recv_loop (r # rs) buf (frame # queue) =
     (case unpackb frame of
        None \<Rightarrow> Raised UnpackException
      | Some (in_id, data) \<Rightarrow>
          if in_id \<in> set (r # rs)
          then recv_loop (remove1 in_id (r # rs))
                 (if data \<noteq> None then buf @ [(in_id, data)] else buf) queue
          else Raised ValueError)"

text \<open>
  \<^verbatim>\<open>_sync\<close>: the frames written to the data socket, and how the call ends. When it
  returns, the result is the module afterwards and the frames left in the socket.
\<close>

definition sync :: "module \<Rightarrow> bytes list \<Rightarrow> bytes list \<times> (module \<times> bytes list) outcome" where
  "sync m queue =
     (if net m \<in> {NetNone, Ctrl} then ([], Returned (m, queue))
      else
        let (sent, err) = (if net m \<in> {Out, Full} then send_phase m else ([], None))
        in case err of
             Some e \<Rightarrow> (sent, Raised e)
           | None \<Rightarrow>
               if net m \<in> {In, Full}
               then (case recv_loop (in_ids m) [] queue of
                       Returned (buf, queue') \<Rightarrow> (sent, Returned (m\<lparr>in_data := buf\<rparr>, queue'))
                     | Raised e \<Rightarrow> (sent, Raised e)
                     | Blocked \<Rightarrow> (sent, Blocked))
               else (sent, Returned (m, queue)))"

text \<open>
  A Python value passed where an object is expected: a reference to a \<^verbatim>\<open>BaseModule\<close>
  (modules are mutable and shared, so they live in a store and are named by their ID), a
  \<^verbatim>\<open>BaseConnectivity\<close> object, or anything else.
\<close>

datatype pyobj = ModuleRef ident | ConnObj connectivity | OtherObj

text \<open>
  \<^verbatim>\<open>BaseModule.add_conn(conn, conn_type, id)\<close>: the \<^verbatim>\<open>isinstance\<close> test raises
  \<^verbatim>\<open>ValueError\<close>; the lookup \<^verbatim>\<open>self.conn_dict[conn_type]\<close> raises \<^verbatim>\<open>KeyError\<close> for a
  key other than \<^verbatim>\<open>'in'\<close> and \<^verbatim>\<open>'out'\<close>.
\<close>

definition add_conn :: "module \<Rightarrow> pyobj \<Rightarrow> string \<Rightarrow> ident \<Rightarrow> error + module" where
  "add_conn m conn conn_type i =
     (case conn of
        ConnObj c \<Rightarrow>
          if conn_type = ''in'' then Inr (m\<lparr>conn_in := dict_set i c (conn_in m)\<rparr>)
          else if conn_type = ''out'' then Inr (m\<lparr>conn_out := dict_set i c (conn_out m)\<rparr>)
          else Inl KeyError
      | _ \<Rightarrow> Inl ValueError)"

section \<open>Routing table and broker\<close>

text \<open>
  Modelled from the spec: the class \<^verbatim>\<open>RoutingTable\<close> (module \<^verbatim>\<open>routing_table\<close>) is not
  among the sources. The spec describes it as a set of directed edges with multiplicity
  one, whose \<^verbatim>\<open>coords\<close> is the edge set as an ordered sequence, stable while the table is
  unchanged and handed out as a copy, and whose item assignment adds the edge when the
  value is truthy and removes it otherwise.
\<close>

type_synonym routing_table = "(ident \<times> ident) list"

definition coords :: "routing_table \<Rightarrow> (ident \<times> ident) list" where
  "coords t = t"

definition rt_setitem :: "routing_table \<Rightarrow> ident \<times> ident \<Rightarrow> int \<Rightarrow> routing_table" where
  "rt_setitem t e v =
     (if v \<noteq> 0 then (if e \<in> set t then t else t @ [e]) else removeAll e t)"

record broker =
  b_id :: ident
  b_port_data :: int
  b_port_ctrl :: int
  b_routing_table :: routing_table
  data_to_route :: "(ident \<times> ident \<times> payload) list"
  recv_coords_list :: "(ident \<times> ident) list"

text \<open>
  \<^verbatim>\<open>Broker.__init__\<close>. The first argument is the ID that the base class assigns. The
  default of \<^verbatim>\<open>routing_table\<close> is \<^verbatim>\<open>None\<close>, and reading \<^verbatim>\<open>routing_table.coords\<close> of
  \<^verbatim>\<open>None\<close> raises \<^verbatim>\<open>AttributeError\<close>.
\<close>

definition Broker_init :: "ident \<Rightarrow> int \<Rightarrow> int \<Rightarrow> routing_table option \<Rightarrow> error + broker" where
  "Broker_init new_id pd pc rt =
     (if pd = pc then Inl ValueError
      else case rt of
        None \<Rightarrow> Inl AttributeError
      | Some t \<Rightarrow>
          Inr \<lparr>b_id = new_id, b_port_data = pd, b_port_ctrl = pc, b_routing_table = t,
               data_to_route = [], recv_coords_list = coords t\<rparr>)"

text \<open>The assignment at the start of \<^verbatim>\<open>Broker.run\<close>, before the event loop.\<close>

definition Broker_run :: "broker \<Rightarrow> broker" where
  "Broker_run b = b\<lparr>recv_coords_list := coords (b_routing_table b)\<rparr>"

text \<open>
  \<^verbatim>\<open>Broker._data_handler(msg)\<close> for one multipart message: the broker afterwards and
  the multipart messages written to the router socket, in order.
\<close>

definition data_handler :: "broker \<Rightarrow> bytes list \<Rightarrow> error + (broker \<times> bytes list list)" where
  "data_handler b msg =
     (if length msg \<noteq> 2 then Inr (b, [])
      else
        let in_id = msg ! 0
        in case unpackb (msg ! 1) of
             None \<Rightarrow> Inl UnpackException
           | Some (out_id, data) \<Rightarrow>
               let b1 = (if (in_id, out_id) \<in> set (recv_coords_list b)
                         then b\<lparr>data_to_route := data_to_route b @ [(in_id, out_id, data)],
                                recv_coords_list := remove1 (in_id, out_id) (recv_coords_list b)\<rparr>
                         else b)
               in if recv_coords_list b1 = []
                  then Inr (b1\<lparr>data_to_route := [],
                               recv_coords_list := coords (b_routing_table b1)\<rparr>,
                            map (\<lambda>(in_id, out_id, data). [out_id, packb (in_id, data)])
                              (data_to_route b1))
                  else Inr (b1, []))"

text \<open>
  The handler run over the messages that the event loop delivers, up to the first one on
  which it raises; the result collects, per message, what was written to the socket.
\<close>

fun handle_all :: "broker \<Rightarrow> bytes list list \<Rightarrow> error + (broker \<times> bytes list list list)" where
  "handle_all b [] = Inr (b, [])"
| "handle_all b (msg # msgs) =
     (case data_handler b msg of
        Inl e \<Rightarrow> Inl e
      | Inr (b', out) \<Rightarrow>
          (case handle_all b' msgs of
             Inl e \<Rightarrow> Inl e
           | Inr (b'', outs) \<Rightarrow> Inr (b'', out # outs)))"

section \<open>Manager\<close>

record manager =
  man_port_data :: int
  man_port_ctrl :: int
  mod_dict :: "ident list"
  conn_dict :: "(ident \<times> connectivity) list"
  routing_table :: routing_table

text \<open>
  The objects a manager works on: the store of module objects, the manager itself, and
  the counter behind \<^verbatim>\<open>uid()\<close>. Modelled from the spec: the module \<^verbatim>\<open>uid\<close> is not among
  the sources; the spec describes it as a generator of process-unique opaque identifiers.
\<close>

record world =
  heap :: "ident \<rightharpoonup> module"
  man :: manager
  next_uid :: nat

definition net_of :: "world \<Rightarrow> ident \<Rightarrow> netmode option" where
  "net_of w i = map_option net (heap w i)"

text \<open>The assignment \<^verbatim>\<open>m.net = value\<close> on the module object with ID \<open>i\<close>.\<close>

definition set_net :: "ident \<Rightarrow> netmode \<Rightarrow> world \<Rightarrow> world" where
  "set_net i v w =
     (case heap w i of
        None \<Rightarrow> w
      | Some m \<Rightarrow> w\<lparr>heap := (heap w)(i \<mapsto> m\<lparr>net := v\<rparr>)\<rparr>)"

text \<open>
  The pattern \<^verbatim>\<open>if m.net == 'none': m.net = first; elif m.net == other: m.net = 'full'\<close>
  that \<^verbatim>\<open>connect\<close> applies to both modules for the directions \<^verbatim>\<open>+\<close> and \<^verbatim>\<open>-\<close>.
\<close>

definition promote :: "ident \<Rightarrow> netmode \<Rightarrow> netmode \<Rightarrow> world \<Rightarrow> world" where
  "promote i first other w =
     (if net_of w i = Some NetNone then set_net i first w
      else if net_of w i = Some other then set_net i Full w
      else w)"

text \<open>A call that may raise: the world it leaves behind and the exception, if any.\<close>

type_synonym effect = "world \<times> error option"

definition and_then :: "effect \<Rightarrow> (world \<Rightarrow> effect) \<Rightarrow> effect" where
  "and_then r f = (case r of (w, Some e) \<Rightarrow> (w, Some e) | (w, None) \<Rightarrow> f w)"

text \<open>\<^verbatim>\<open>m.add_conn(conn, conn_type, peer)\<close> on the module object with ID \<open>i\<close>.\<close>

definition mod_add_conn :: "ident \<Rightarrow> pyobj \<Rightarrow> string \<Rightarrow> ident \<Rightarrow> world \<Rightarrow> effect" where
  "mod_add_conn i conn conn_type peer w =
     (case heap w i of
        None \<Rightarrow> (w, Some AttributeError)
      | Some m \<Rightarrow>
          (case add_conn m conn conn_type peer of
             Inl e \<Rightarrow> (w, Some e)
           | Inr m' \<Rightarrow> (w\<lparr>heap := (heap w)(i \<mapsto> m')\<rparr>, None)))"

text \<open>
  The two statements \<^verbatim>\<open>m_src.add_conn(conn, t1, m_dest.id)\<close> and
  \<^verbatim>\<open>m_dest.add_conn(conn.T, t2, m_src.id)\<close>. The property \<^verbatim>\<open>conn.T\<close> calls
  \<^verbatim>\<open>transpose\<close>, whose constructor draws a fresh identifier first.
\<close>

definition wire :: "ident \<Rightarrow> ident \<Rightarrow> connectivity \<Rightarrow> string \<Rightarrow> string \<Rightarrow> world \<Rightarrow> effect" where
  "wire s d c t1 t2 w =
     and_then (mod_add_conn s (ConnObj c) t1 d w)
       (\<lambda>w1. case transpose_conn (Uid (next_uid w1)) c of
                Inl e \<Rightarrow> (w1\<lparr>next_uid := Suc (next_uid w1)\<rparr>, Some e)
              | Inr t \<Rightarrow> mod_add_conn d (ConnObj t) t2 s (w1\<lparr>next_uid := Suc (next_uid w1)\<rparr>))"

text \<open>
  \<^verbatim>\<open>BaseManager.add_mod\<close> and \<^verbatim>\<open>BaseManager.add_conn\<close> as \<^verbatim>\<open>connect\<close> calls them, that
  is with an instance of the right class and an ID that is not registered yet.
\<close>

definition add_mod :: "ident \<Rightarrow> world \<Rightarrow> world" where
  "add_mod i w = w\<lparr>man := (man w)\<lparr>mod_dict := mod_dict (man w) @ [i]\<rparr>\<rparr>"

definition man_add_conn :: "connectivity \<Rightarrow> world \<Rightarrow> world" where
  "man_add_conn c w = w\<lparr>man := (man w)\<lparr>conn_dict := dict_set (cid c) c (conn_dict (man w))\<rparr>\<rparr>"

text \<open>The assignment \<^verbatim>\<open>self.routing_table[a, b] = 1\<close>.\<close>

definition add_route :: "ident \<Rightarrow> ident \<Rightarrow> world \<Rightarrow> world" where
  "add_route a b w = w\<lparr>man := (man w)\<lparr>routing_table := rt_setitem (routing_table (man w)) (a, b) 1\<rparr>\<rparr>"

text \<open>The registration of the three arguments at the start of \<^verbatim>\<open>connect\<close>.\<close>

definition register :: "ident \<Rightarrow> ident \<Rightarrow> connectivity \<Rightarrow> world \<Rightarrow> world" where
  "register s d c w =
     (let w1 = (if s \<notin> set (mod_dict (man w)) then add_mod s w else w);
          w2 = (if d \<notin> set (mod_dict (man w1)) then add_mod d w1 else w1)
      in if cid c \<notin> set (map fst (conn_dict (man w2))) then man_add_conn c w2 else w2)"

text \<open>
  \<^verbatim>\<open>BaseManager.connect(m_src, m_dest, conn, dir)\<close>. A module reference passes the
  \<^verbatim>\<open>isinstance\<close> test when it names an object of the store.
\<close>

definition connect :: "world \<Rightarrow> pyobj \<Rightarrow> pyobj \<Rightarrow> pyobj \<Rightarrow> string \<Rightarrow> effect" where
  "connect w m_src m_dest conn dir =
     (case (m_src, m_dest, conn) of
        (ModuleRef s, ModuleRef d, ConnObj c) \<Rightarrow>
          if heap w s = None \<or> heap w d = None then (w, Some ValueError)
          else
            let w0 = register s d c w
            in if dir = ''+'' then
                 wire s d c ''out'' ''in''
                   (promote d In Out (promote s Out In (add_route s d w0)))
               else if dir = ''-'' then
                 wire s d c ''in'' ''out''
                   (promote d Out In (promote s In Out (add_route d s w0)))
               else if dir = ''='' then
                 and_then
                   (wire s d c ''out'' ''in''
                      (set_net d Full (set_net s Full (add_route d s (add_route s d w0)))))
                   (wire s d c ''in'' ''out'')
               else (w0, Some ValueError)
      | _ \<Rightarrow> (w, Some ValueError))"

text \<open>A sequence of \<^verbatim>\<open>connect\<close> calls, each made whether or not an earlier one raised.\<close>

fun connect_calls :: "world \<Rightarrow> (pyobj \<times> pyobj \<times> pyobj \<times> string) list \<Rightarrow> world" where
  "connect_calls w [] = w"
| "connect_calls w ((m_src, m_dest, conn, dir) # calls) =
     connect_calls (fst (connect w m_src m_dest conn dir)) calls"

text \<open>
  The order on net modes that the arrows \<open>none \<rightarrow> in | out | ctrl\<close>, \<open>in \<rightarrow> full\<close> and
  \<open>out \<rightarrow> full\<close> generate (their reflexive and transitive closure), and the same order
  with the arrow \<open>ctrl \<rightarrow> full\<close> added.
\<close>

fun lattice_le :: "netmode \<Rightarrow> netmode \<Rightarrow> bool" where
  "lattice_le NetNone b = True"
| "lattice_le In b = (b = In \<or> b = Full)"
| "lattice_le Out b = (b = Out \<or> b = Full)"
| "lattice_le Ctrl b = (b = Ctrl)"
| "lattice_le Full b = (b = Full)"

definition promoted_le :: "netmode \<Rightarrow> netmode \<Rightarrow> bool" where
  "promoted_le a b = (lattice_le a b \<or> (a = Ctrl \<and> b = Full))"

section \<open>Predicates of the statements\<close>

text \<open>
  Between two calls of the data handler the list of awaited edges is empty only when the
  routing table has no edge at all, and then nothing is pending.
\<close>

definition round_inv :: "broker \<Rightarrow> bool" where
  "round_inv b = (recv_coords_list b = [] \<longrightarrow>
      data_to_route b = [] \<and> coords (b_routing_table b) = [])"

text \<open>A connectivity object on which \<^verbatim>\<open>transpose\<close> succeeds: its \<^verbatim>\<open>N_dest\<close> is positive
  and every key carries the direction \<^verbatim>\<open>+\<close> or \<^verbatim>\<open>-\<close> at index 1, as all objects built
  through the constructor and \<^verbatim>\<open>set\<close> do.\<close>

definition transposable :: "connectivity \<Rightarrow> bool" where
  "transposable c = (case transpose_conn (cid c) c of Inl e \<Rightarrow> False | Inr t \<Rightarrow> True)"

text \<open>Every module of the first world exists in the second, with a net mode at or above
  the one it had.\<close>

definition nets_promoted :: "world \<Rightarrow> world \<Rightarrow> bool" where
  "nets_promoted w w' =
     (\<forall>i m. heap w i = Some m \<longrightarrow> (\<exists>m'. heap w' i = Some m' \<and> promoted_le (net m) (net m')))"

text \<open>The update of one module object of the store, when it exists.\<close>

definition upd_mod :: "ident \<Rightarrow> (module \<Rightarrow> module) \<Rightarrow> world \<Rightarrow> world" where
  "upd_mod i f w = w\<lparr>heap := (heap w)(i := map_option f (heap w i))\<rparr>"

section \<open>Example objects\<close>

text \<open>The object that \<^verbatim>\<open>BaseConnectivity(2, 3)\<close> builds, and a module wired to two peers.\<close>

definition conn_ex :: connectivity where
  "conn_ex =
     \<lparr>cid = Uid 0, N_src = 2, N_dest = 3, N_mult = 1,
      c_data = [(''0/+/conn'', \<lparr>m_shape = (2, 3), m_cells = []\<rparr>),
                (''0/-/conn'', \<lparr>m_shape = (2, 3), m_cells = []\<rparr>)],
      keys_plus = [''0/+/conn''], keys_minus = [''0/-/conn'']\<rparr>"

definition mod_ex :: module where
  "mod_ex =
     \<lparr>mod_id = Raw ''m1'', net = Full, port_data = 5000, port_ctrl = 5001,
      in_data = [(Raw ''m9'', Some (Raw ''old''))],
      out_data = [(Raw ''m3'', Some (Raw ''a''))],
      conn_in = [(Raw ''m2'', conn_ex), (Raw ''m3'', conn_ex)],
      conn_out = [(Raw ''m2'', conn_ex), (Raw ''m3'', conn_ex)]\<rparr>"

text \<open>The object that \<^verbatim>\<open>conn_ex.transpose()\<close> builds when \<^verbatim>\<open>uid()\<close> returns \<open>Uid 1\<close>.\<close>

definition conn_ex_T :: connectivity where
  "conn_ex_T =
     \<lparr>cid = Uid 1, N_src = 3, N_dest = 3, N_mult = 1,
      c_data = [(''0/+/conn'', \<lparr>m_shape = (3, 2), m_cells = []\<rparr>),
                (''0/-/conn'', \<lparr>m_shape = (3, 2), m_cells = []\<rparr>)],
      keys_plus = [''0/+/conn''], keys_minus = [''0/-/conn'']\<rparr>"

definition table_ex :: routing_table where
  "table_ex = [(Raw ''m1'', Raw ''m2''), (Raw ''m2'', Raw ''m1'')]"

text \<open>The broker that \<^verbatim>\<open>Broker(5000, 5001, table_ex)\<close> builds, and the same broker after the
  frame of the first edge has arrived.\<close>

definition broker_ex :: broker where
  "broker_ex = \<lparr>b_id = Raw ''b0'', b_port_data = 5000, b_port_ctrl = 5001,
      b_routing_table = table_ex, data_to_route = [], recv_coords_list = table_ex\<rparr>"

definition broker_mid :: broker where
  "broker_mid = broker_ex\<lparr>data_to_route := [(Raw ''m1'', Raw ''m2'', Some (Raw ''a''))],
      recv_coords_list := [(Raw ''m2'', Raw ''m1'')]\<rparr>"

text \<open>A world with a module in mode \<^verbatim>\<open>ctrl\<close> and a module in mode \<^verbatim>\<open>none\<close>, neither of
  them registered with the manager yet.\<close>

definition mod_a :: module where
  "mod_a = \<lparr>mod_id = Raw ''m1'', net = Ctrl, port_data = 5000, port_ctrl = 5001,
      in_data = [], out_data = [], conn_in = [], conn_out = []\<rparr>"

definition mod_b :: module where
  "mod_b = \<lparr>mod_id = Raw ''m2'', net = NetNone, port_data = 5000, port_ctrl = 5001,
      in_data = [], out_data = [], conn_in = [], conn_out = []\<rparr>"

definition world_ex :: world where
  "world_ex =
     \<lparr>heap = [Raw ''m1'' \<mapsto> mod_a, Raw ''m2'' \<mapsto> mod_b],
      man = \<lparr>man_port_data = 5000, man_port_ctrl = 5001, mod_dict = [], conn_dict = [],
              routing_table = []\<rparr>,
      next_uid = 1\<rparr>"

text \<open>The example world with the first module in mode \<^verbatim>\<open>out\<close> instead of \<^verbatim>\<open>ctrl\<close>.\<close>

definition world_ok :: world where
  "world_ok = world_ex\<lparr>heap := [Raw ''m1'' \<mapsto> mod_a\<lparr>net := Out\<rparr>, Raw ''m2'' \<mapsto> mod_b]\<rparr>"

section \<open>Properties of the barrier synchronisation\<close>


lemma unpackb_packb: "unpackb (packb x) = Some x"
  by (simp add: packb_def)

lemma remove1_as_filter: "distinct xs \<Longrightarrow> remove1 x xs = filter (\<lambda>y. y \<noteq> x) xs"
  by (simp add: distinct_remove1_removeAll removeAll_filter_not_eq) (metis)

lemma send_loop_ok:
  "distinct ids \<Longrightarrow> distinct (map fst buf) \<Longrightarrow> set (map fst buf) \<subseteq> set ids \<Longrightarrow>
   send_loop ids buf sent =
     (sent @ map packb buf, Inr (filter (\<lambda>i. i \<notin> set (map fst buf)) ids))"
proof (induction buf arbitrary: ids sent)
  case Nil
  then show ?case by simp
next
  case (Cons e buf)
  obtain d p where e: "e = (d, p)" by (cases e)
  from Cons.prems e have d: "d \<in> set ids" "d \<notin> set (map fst buf)" by auto
  have sub: "set (map fst buf) \<subseteq> set (remove1 d ids)"
    using Cons.prems e d by auto
  have "send_loop (remove1 d ids) buf (sent @ [packb (d, p)]) =
          ((sent @ [packb (d, p)]) @ map packb buf,
           Inr (filter (\<lambda>i. i \<notin> set (map fst buf)) (remove1 d ids)))"
    using Cons.IH [of "remove1 d ids" "sent @ [packb (d, p)]"] Cons.prems e sub by simp
  moreover have "filter (\<lambda>i. i \<notin> set (map fst buf)) (remove1 d ids) =
                 filter (\<lambda>i. i \<notin> set (map fst (e # buf))) ids"
    using Cons.prems(1) e by (simp add: remove1_as_filter conj_commute)
  ultimately show ?case using d e by simp
qed

lemma send_loop_outside:
  "\<not> set (map fst buf) \<subseteq> set ids \<Longrightarrow> snd (send_loop ids buf sent) = Inl ValueError"
proof (induction buf arbitrary: ids sent)
  case Nil
  then show ?case by simp
next
  case (Cons e buf)
  obtain d p where e: "e = (d, p)" by (cases e)
  show ?case
  proof (cases "d \<in> set ids")
    case False
    then show ?thesis using e by simp
  next
    case True
    with Cons.prems e have "\<not> set (map fst buf) \<subseteq> set (remove1 d ids)"
      by (auto dest: notin_set_remove1)
    then show ?thesis using Cons.IH True e by simp
  qed
qed

lemma send_loop_dup:
  "distinct ids \<Longrightarrow> \<not> distinct (map fst buf) \<Longrightarrow> snd (send_loop ids buf sent) = Inl ValueError"
proof (induction buf arbitrary: ids sent)
  case Nil
  then show ?case by simp
next
  case (Cons e buf)
  obtain d p where e: "e = (d, p)" by (cases e)
  show ?case
  proof (cases "d \<in> set ids")
    case False
    then show ?thesis using e by simp
  next
    case True
    show ?thesis
    proof (cases "distinct (map fst buf)")
      case False
      then show ?thesis using Cons.IH [of "remove1 d ids"] Cons.prems(1) True e by simp
    next
      case dis: True
      with Cons.prems(2) e have "d \<in> set (map fst buf)" by simp
      moreover have "d \<notin> set (remove1 d ids)" using Cons.prems(1) by simp
      ultimately have "\<not> set (map fst buf) \<subseteq> set (remove1 d ids)" by blast
      then show ?thesis using send_loop_outside True e by simp
    qed
  qed
qed

lemma send_loop_sent_prefix:
  "\<exists>n \<le> length buf. fst (send_loop ids buf sent) = sent @ map packb (take n buf)"
proof (induction buf arbitrary: ids sent)
  case Nil
  then show ?case by simp
next
  case (Cons e buf)
  obtain d p where e: "e = (d, p)" by (cases e)
  show ?case
  proof (cases "d \<in> set ids")
    case False
    have "fst (send_loop ids (e # buf) sent) = sent @ map packb (take 1 (e # buf))"
      using False e by simp
    then show ?thesis by (metis One_nat_def Suc_leI length_Cons zero_less_Suc)
  next
    case True
    from Cons.IH [of "remove1 d ids" "sent @ [packb (d, p)]"]
    obtain n where n: "n \<le> length buf"
      "fst (send_loop (remove1 d ids) buf (sent @ [packb (d, p)])) =
         (sent @ [packb (d, p)]) @ map packb (take n buf)" by blast
    have "fst (send_loop ids (e # buf) sent) = sent @ map packb (take (Suc n) (e # buf))"
      using True e n by simp
    then show ?thesis using n(1) by (metis Suc_le_mono length_Cons)
  qed
qed

lemma recv_loop_ok:
  "distinct ids \<Longrightarrow> distinct (map fst msgs) \<Longrightarrow> set (map fst msgs) = set ids \<Longrightarrow>
   recv_loop ids buf (map packb msgs @ rest) =
     Returned (buf @ filter (\<lambda>e. snd e \<noteq> None) msgs, rest)"
proof (induction msgs arbitrary: ids buf)
  case Nil
  then show ?case by simp
next
  case (Cons e msgs)
  obtain s p where e: "e = (s, p)" by (cases e)
  from Cons.prems e have s: "s \<in> set ids" by auto
  then obtain r rs where ids: "ids = r # rs" by (cases ids) auto
  have dis: "distinct (remove1 s ids)" using Cons.prems(1) by simp
  have eq: "set (map fst msgs) = set (remove1 s ids)"
    using Cons.prems e by auto
  have step: "recv_loop ids buf (map packb (e # msgs) @ rest) =
        recv_loop (remove1 s ids) (if p \<noteq> None then buf @ [(s, p)] else buf)
          (map packb msgs @ rest)"
    using s e unfolding ids by (simp add: unpackb_packb)
  show ?case
    unfolding step using Cons.IH [OF dis _ eq] Cons.prems(2) e by auto
qed

lemma sync_frame:
  "sync m queue = (sent, Returned (m', queue')) \<Longrightarrow> m' = m\<lparr>in_data := in_data m'\<rparr>"
  by (auto simp: sync_def Let_def split: if_splits prod.splits option.splits outcome.splits)


lemma length_filter_notin:
  assumes "distinct ids" "distinct ks" "set ks \<subseteq> set ids"
  shows "length ks + length (filter (\<lambda>i. i \<notin> set ks) ids) = length ids"
proof -
  have "set (filter (\<lambda>i. i \<in> set ks) ids) = set ks" using assms(3) by auto
  moreover have "distinct (filter (\<lambda>i. i \<in> set ks) ids)" using assms(1) by simp
  ultimately have "length (filter (\<lambda>i. i \<in> set ks) ids) = length ks"
    using assms(2) by (metis distinct_card)
  then show ?thesis
    using sum_length_filter_compl [of "\<lambda>i. i \<in> set ks" ids] by simp
qed

lemma send_phase_ok:
  assumes "distinct (out_ids m)" "distinct (map fst (out_data m))"
    "set (map fst (out_data m)) \<subseteq> set (out_ids m)"
  shows "send_phase m =
     (map packb (out_data m) @
        map (\<lambda>d. packb (d, None))
          (filter (\<lambda>d. d \<notin> set (map fst (out_data m))) (out_ids m)), None)"
  using send_loop_ok [OF assms, of "[]"] by (simp add: send_phase_def)

lemma fst_sync_send:
  "net m \<in> {Out, Full} \<Longrightarrow> fst (sync m queue) = fst (send_phase m)"
  by (auto simp: sync_def Let_def split: prod.splits option.splits outcome.splits)

lemma send_phase_dup:
  assumes "distinct (out_ids m)" "\<not> distinct (map fst (out_data m))"
  shows "snd (send_phase m) = Some ValueError"
  using send_loop_dup [OF assms, of "[]"]
  by (cases "send_loop (out_ids m) (out_data m) []") (auto simp: send_phase_def)

lemma send_phase_raise_prefix:
  assumes "snd (send_phase m) = Some e"
  shows "\<exists>n \<le> length (out_data m). fst (send_phase m) = map packb (take n (out_data m))"
proof -
  obtain sent r where r: "send_loop (out_ids m) (out_data m) [] = (sent, r)"
    by (cases "send_loop (out_ids m) (out_data m) []")
  with assms obtain e' where "r = Inl e'" by (cases r) (auto simp: send_phase_def)
  with r have "fst (send_phase m) = fst (send_loop (out_ids m) (out_data m) [])"
    by (simp add: send_phase_def)
  then show ?thesis using send_loop_sent_prefix [of "out_data m" "out_ids m" "[]"] by simp
qed

text \<open>
  Claim C1. The keys of a dict are pairwise different, so \<open>in_ids m\<close> is a list without
  duplicates. Let the module have net mode \<open>in\<close> or \<open>full\<close>, and let the frames of this
  step, \<open>map packb msgs\<close>, come from pairwise different sources that are exactly the
  peers in \<open>in_ids m\<close>, one frame each, in any arrival order (for \<open>full\<close>, the send phase
  is assumed not to raise). Then \<^verbatim>\<open>_sync\<close> returns, leaves the frames of later steps in
  the socket, and the inbound buffer is exactly the received pairs with a payload other
  than \<^verbatim>\<open>None\<close>, in arrival order: it has no duplicate source, no source outside
  \<open>in_ids m\<close> and no \<^verbatim>\<open>None\<close> payload. The previous content of the buffer is gone.
\<close>

theorem sync_inbound_exact:
  assumes "net m \<in> {In, Full}"
    and "net m = Full \<longrightarrow> snd (send_phase m) = None"
    and "distinct (in_ids m)"
    and "distinct (map fst msgs)"
    and "set (map fst msgs) = set (in_ids m)"
  shows "snd (sync m (map packb msgs @ rest)) =
           Returned (m\<lparr>in_data := filter (\<lambda>e. snd e \<noteq> None) msgs\<rparr>, rest)
         \<and> distinct (map fst (filter (\<lambda>e. snd e \<noteq> None) msgs))
         \<and> set (map fst (filter (\<lambda>e. snd e \<noteq> None) msgs)) \<subseteq> set (in_ids m)
         \<and> None \<notin> snd ` set (filter (\<lambda>e. snd e \<noteq> None) msgs)"
proof -
  have rl: "recv_loop (in_ids m) [] (map packb msgs @ rest) =
              Returned ([] @ filter (\<lambda>e. snd e \<noteq> None) msgs, rest)"
    using recv_loop_ok [OF assms(3,4,5)] .
  have "snd (sync m (map packb msgs @ rest)) =
          Returned (m\<lparr>in_data := filter (\<lambda>e. snd e \<noteq> None) msgs\<rparr>, rest)"
  proof (cases "net m = Full")
    case True
    with assms(2) obtain sent where "send_phase m = (sent, None)"
      by (cases "send_phase m") auto
    then show ?thesis using True rl by (simp add: sync_def)
  next
    case False
    with assms(1) have "net m = In" by simp
    then show ?thesis using rl by (simp add: sync_def)
  qed
  moreover have "distinct (map fst (filter (\<lambda>e. snd e \<noteq> None) msgs))"
    using assms(4) by (simp add: distinct_map_filter)
  moreover have "set (map fst (filter (\<lambda>e. snd e \<noteq> None) msgs)) \<subseteq> set (in_ids m)"
    using assms(5) by auto
  ultimately show ?thesis by auto
qed

theorem sync_inbound_exact_witness:
  "snd (sync mod_ex [Packed (Raw ''m3'') (Some (Raw ''x'')), Packed (Raw ''m2'') None,
                      Packed (Raw ''m2'') (Some (Raw ''next''))]) =
     Returned (mod_ex\<lparr>in_data := [(Raw ''m3'', Some (Raw ''x''))]\<rparr>,
               [Packed (Raw ''m2'') (Some (Raw ''next''))])"
  using sync_inbound_exact [of mod_ex "[(Raw ''m3'', Some (Raw ''x'')), (Raw ''m2'', None)]"
      "[Packed (Raw ''m2'') (Some (Raw ''next''))]"]
  by (simp add: mod_ex_def in_ids_def out_ids_def send_phase_def packb_def insert_commute)

text \<open>
  Claim C2. Let the module have net mode \<open>out\<close> or \<open>full\<close> and an outbound buffer without
  duplicate destinations whose destinations all lie in \<open>out_ids m\<close> (itself the key list
  of a dict, hence without duplicates). Then \<^verbatim>\<open>_sync\<close>
  writes to the data socket one packed \<open>(dst, payload)\<close> per buffered entry, followed by
  one packed \<open>(dst, None)\<close> for every destination of \<open>out_ids m\<close> that the buffer does
  not address: \<open>length (out_ids m)\<close> frames in all, whatever the receive phase does
  afterwards.
\<close>

theorem sync_sends_one_frame_per_destination:
  assumes "net m \<in> {Out, Full}"
    and "distinct (out_ids m)"
    and "distinct (map fst (out_data m))"
    and "set (map fst (out_data m)) \<subseteq> set (out_ids m)"
  shows "fst (sync m queue) =
           map packb (out_data m) @
           map (\<lambda>d. packb (d, None))
             (filter (\<lambda>d. d \<notin> set (map fst (out_data m))) (out_ids m))
         \<and> length (fst (sync m queue)) = length (out_ids m)"
  using fst_sync_send [OF assms(1)] send_phase_ok [OF assms(2,3,4)]
    length_filter_notin [OF assms(2,3,4)]
  by simp

theorem sync_sends_one_frame_per_destination_witness:
  "fst (sync mod_ex []) = [Packed (Raw ''m3'') (Some (Raw ''a'')), Packed (Raw ''m2'') None]
   \<and> length (fst (sync mod_ex [])) = 2"
  using sync_sends_one_frame_per_destination [of mod_ex "[]"]
  by (simp add: mod_ex_def out_ids_def packb_def)

text \<open>
  Claim C7. Let the module have net mode \<open>out\<close> or \<open>full\<close> (and \<open>out_ids m\<close>, the key list
  of a dict, no duplicates). If two entries of the outbound
  buffer have the same destination, \<^verbatim>\<open>_sync\<close> does not return: \<^verbatim>\<open>send_ids.remove\<close>
  raises \<^verbatim>\<open>ValueError\<close>, the exception with which the code signals the protocol
  violation. What has been written to the socket by then is a prefix of the buffered
  entries; no \<^verbatim>\<open>None\<close> tuple is sent and nothing is received.
\<close>

theorem sync_duplicate_destination_raises:
  assumes "net m \<in> {Out, Full}"
    and "distinct (out_ids m)"
    and "\<not> distinct (map fst (out_data m))"
  shows "snd (sync m queue) = Raised ValueError
         \<and> (\<exists>n \<le> length (out_data m). fst (sync m queue) = map packb (take n (out_data m)))"
proof -
  have e: "snd (send_phase m) = Some ValueError"
    using send_phase_dup [OF assms(2,3)] .
  then obtain sent where sp: "send_phase m = (sent, Some ValueError)"
    by (cases "send_phase m") auto
  have "snd (sync m queue) = Raised ValueError"
    using assms(1) sp by (auto simp: sync_def)
  moreover have "fst (sync m queue) = fst (send_phase m)"
    using fst_sync_send [OF assms(1)] .
  ultimately show ?thesis using send_phase_raise_prefix [OF e] by simp
qed

theorem sync_duplicate_destination_raises_witness:
  "snd (sync (mod_ex\<lparr>out_data := [(Raw ''m3'', Some (Raw ''a'')), (Raw ''m3'', Some (Raw ''b''))]\<rparr>) [])
     = Raised ValueError"
  using sync_duplicate_destination_raises
    [of "mod_ex\<lparr>out_data := [(Raw ''m3'', Some (Raw ''a'')), (Raw ''m3'', Some (Raw ''b''))]\<rparr>" "[]"]
  by (simp add: mod_ex_def out_ids_def)

text \<open>By the time the exception is raised, the frame of the duplicate entry is on the wire.\<close>

lemma duplicate_frame_sent_before_raise:
  "fst (sync (mod_ex\<lparr>out_data := [(Raw ''m3'', Some (Raw ''a'')), (Raw ''m3'', Some (Raw ''b''))]\<rparr>) [])
     = [Packed (Raw ''m3'') (Some (Raw ''a'')), Packed (Raw ''m3'') (Some (Raw ''b''))]"
  by (simp add: sync_def send_phase_def mod_ex_def out_ids_def packb_def)

text \<open>
  Claim C9. When \<^verbatim>\<open>_sync\<close> returns, the module differs from the module before the call
  in the inbound buffer at most: the connectivity maps, hence \<open>in_ids\<close> and \<open>out_ids\<close>,
  the net mode, the ports and the outbound buffer are unchanged, although both loops
  remove IDs from the lists \<^verbatim>\<open>send_ids\<close> and \<^verbatim>\<open>recv_ids\<close>.
\<close>

theorem sync_changes_only_in_data:
  assumes "sync m queue = (sent, Returned (m', queue'))"
  shows "m' = m\<lparr>in_data := in_data m'\<rparr> \<and> in_ids m' = in_ids m \<and> out_ids m' = out_ids m"
proof -
  have "m' = m\<lparr>in_data := in_data m'\<rparr>" using sync_frame [OF assms] .
  then have "conn_in m' = conn_in m" "conn_out m' = conn_out m"
    by (metis module.select_convs module.surjective module.update_convs(5))+
  then show ?thesis using \<open>m' = m\<lparr>in_data := in_data m'\<rparr>\<close> by (simp add: in_ids_def out_ids_def)
qed

theorem sync_changes_only_in_data_witness:
  "mod_ex\<lparr>in_data := [(Raw ''m3'', Some (Raw ''x''))]\<rparr> =
     mod_ex\<lparr>in_data := in_data (mod_ex\<lparr>in_data := [(Raw ''m3'', Some (Raw ''x''))]\<rparr>)\<rparr>"
proof -
  have "sync mod_ex [Packed (Raw ''m2'') None, Packed (Raw ''m3'') (Some (Raw ''x''))] =
          ([Packed (Raw ''m3'') (Some (Raw ''a'')), Packed (Raw ''m2'') None],
           Returned (mod_ex\<lparr>in_data := [(Raw ''m3'', Some (Raw ''x''))]\<rparr>, []))"
    by (simp add: sync_def send_phase_def mod_ex_def in_ids_def out_ids_def packb_def)
  from sync_changes_only_in_data [OF this] show ?thesis by simp
qed

section \<open>Properties of the broker\<close>


lemma data_handler_table:
  "data_handler b msg = Inr (b', out) \<Longrightarrow> b_routing_table b' = b_routing_table b"
  by (auto simp: data_handler_def Let_def split: if_splits option.splits prod.splits)

lemma data_handler_inv:
  "data_handler b msg = Inr (b', out) \<Longrightarrow> round_inv b \<Longrightarrow> round_inv b'"
  by (auto simp: data_handler_def Let_def round_inv_def split: if_splits option.splits prod.splits)

lemma handle_all_inv:
  "handle_all b msgs = Inr (b', outs) \<Longrightarrow> round_inv b \<Longrightarrow>
     round_inv b' \<and> b_routing_table b' = b_routing_table b"
proof (induction msgs arbitrary: b outs)
  case Nil
  then show ?case by simp
next
  case (Cons msg msgs)
  from Cons.prems(1) obtain b1 out outs1 where
    s: "data_handler b msg = Inr (b1, out)" and r: "handle_all b1 msgs = Inr (b', outs1)"
    by (auto split: sum.splits prod.splits)
  from data_handler_inv [OF s Cons.prems(2)] Cons.IH [OF r] data_handler_table [OF s]
  show ?case by simp
qed

lemma Broker_run_inv:
  "Broker_init i pd pc (Some t) = Inr b0 \<Longrightarrow>
     round_inv (Broker_run b0) \<and> b_routing_table (Broker_run b0) = t"
  by (auto simp: Broker_init_def Broker_run_def round_inv_def split: if_splits)

text \<open>
  Claim C3. Take a broker built with routing table \<open>t\<close> and started, in the state it has
  after handling any sequence of messages without an unpacking error, and let a
  well-formed data frame from \<open>src\<close> for \<open>dst\<close> arrive. If the pair is not awaited, the
  frame is ignored: nothing is sent and neither list changes. If it is awaited and other
  pairs remain, it is recorded and nothing is sent. If it is the last awaited pair, the
  round completes: the pending messages, this one last, are sent in insertion order, the
  pending list is empty again and the awaited list is \<open>coords t\<close> again.
\<close>

theorem broker_round:
  assumes "Broker_init i pd pc (Some t) = Inr b0"
    and "handle_all (Broker_run b0) msgs = Inr (b, outs)"
  shows "((src, dst) \<notin> set (recv_coords_list b) \<longrightarrow>
            data_handler b [src, packb (dst, data)] = Inr (b, []))
       \<and> ((src, dst) \<in> set (recv_coords_list b)
            \<and> remove1 (src, dst) (recv_coords_list b) \<noteq> [] \<longrightarrow>
            data_handler b [src, packb (dst, data)] =
              Inr (b\<lparr>data_to_route := data_to_route b @ [(src, dst, data)],
                     recv_coords_list := remove1 (src, dst) (recv_coords_list b)\<rparr>, []))
       \<and> ((src, dst) \<in> set (recv_coords_list b)
            \<and> remove1 (src, dst) (recv_coords_list b) = [] \<longrightarrow>
            data_handler b [src, packb (dst, data)] =
              Inr (b\<lparr>data_to_route := [], recv_coords_list := coords t\<rparr>,
                   map (\<lambda>(in_id, out_id, data). [out_id, packb (in_id, data)])
                     (data_to_route b @ [(src, dst, data)])))"
proof -
  from Broker_run_inv [OF assms(1)] handle_all_inv [OF assms(2)]
  have inv: "round_inv b" and tab: "b_routing_table b = t" by simp_all
  have 1: "data_handler b [src, packb (dst, data)] = Inr (b, [])"
    if "(src, dst) \<notin> set (recv_coords_list b)"
  proof (cases "recv_coords_list b = []")
    case True
    with inv have "data_to_route b = []" "coords (b_routing_table b) = []"
      by (simp_all add: round_inv_def)
    then show ?thesis using True that by (simp add: data_handler_def packb_def)
  next
    case False
    then show ?thesis using that by (simp add: data_handler_def packb_def)
  qed
  have 2: "data_handler b [src, packb (dst, data)] =
              Inr (b\<lparr>data_to_route := data_to_route b @ [(src, dst, data)],
                     recv_coords_list := remove1 (src, dst) (recv_coords_list b)\<rparr>, [])"
    if "(src, dst) \<in> set (recv_coords_list b)" "remove1 (src, dst) (recv_coords_list b) \<noteq> []"
    using that by (simp add: data_handler_def packb_def)
  have 3: "data_handler b [src, packb (dst, data)] =
              Inr (b\<lparr>data_to_route := [], recv_coords_list := coords t\<rparr>,
                   map (\<lambda>(in_id, out_id, data). [out_id, packb (in_id, data)])
                     (data_to_route b @ [(src, dst, data)]))"
    if "(src, dst) \<in> set (recv_coords_list b)" "remove1 (src, dst) (recv_coords_list b) = []"
    using that tab by (simp add: data_handler_def packb_def)
  from 1 2 3 show ?thesis by blast
qed

theorem broker_round_witness:
  "data_handler broker_ex [Raw ''m1'', Packed (Raw ''m2'') (Some (Raw ''a''))] = Inr (broker_mid, [])
   \<and> data_handler broker_mid [Raw ''m1'', Packed (Raw ''m2'') (Some (Raw ''dup''))] = Inr (broker_mid, [])
   \<and> data_handler broker_mid [Raw ''m2'', Packed (Raw ''m1'') None] =
        Inr (broker_ex, [[Raw ''m2'', Packed (Raw ''m1'') (Some (Raw ''a''))],
                         [Raw ''m1'', Packed (Raw ''m2'') None]])"
proof -
  have init: "Broker_init (Raw ''b0'') 5000 5001 (Some table_ex) = Inr broker_ex"
    by (simp add: Broker_init_def broker_ex_def coords_def)
  have run0: "handle_all (Broker_run broker_ex) [] = Inr (broker_ex, [])"
    by (simp add: Broker_run_def broker_ex_def coords_def)
  have run1: "handle_all (Broker_run broker_ex)
      [[Raw ''m1'', Packed (Raw ''m2'') (Some (Raw ''a''))]] = Inr (broker_mid, [[]])"
    by (simp add: Broker_run_def broker_ex_def broker_mid_def coords_def data_handler_def table_ex_def Let_def)
  show ?thesis
    using broker_round [OF init run0, of "Raw ''m1''" "Raw ''m2''" "Some (Raw ''a'')"]
      broker_round [OF init run1, of "Raw ''m1''" "Raw ''m2''" "Some (Raw ''dup'')"]
      broker_round [OF init run1, of "Raw ''m2''" "Raw ''m1''" None]
    by (simp add: broker_ex_def broker_mid_def table_ex_def packb_def coords_def)
qed

text \<open>
  Claim C10. Constructing a broker with the default \<^verbatim>\<open>routing_table=None\<close> fails for all
  ports: with \<^verbatim>\<open>ValueError\<close> when the two ports are equal, and otherwise with
  \<^verbatim>\<open>AttributeError\<close> at \<^verbatim>\<open>routing_table.coords\<close>. No broker object results.
\<close>

theorem Broker_init_without_table:
  "Broker_init new_id pd pc None = Inl (if pd = pc then ValueError else AttributeError)"
  by (simp add: Broker_init_def)

section \<open>Properties of connectivity objects and of \<^verbatim>\<open>add_conn\<close>\<close>


lemma BaseConnectivity_init_ex: "BaseConnectivity_init (Uid 0) 2 3 1 = Inr conn_ex"
  by (simp add: BaseConnectivity_init_def make_matrix_def make_key_def conn_ex_def)

lemma flip_plus: "flip_key ''0/+/conn'' = Inr (''-'', ''0/-/conn'')"
  by (simp add: flip_key_def)

lemma flip_minus: "flip_key ''0/-/conn'' = Inr (''+'', ''0/+/conn'')"
  by (simp add: flip_key_def)

text \<open>
  Claim C4, evaluated on the object that \<^verbatim>\<open>BaseConnectivity(2, 3)\<close> builds. Transposing
  twice gives back the keys and the matrices, but the object has the shape \<open>(3, 3)\<close>
  instead of \<open>(2, 3)\<close>: \<^verbatim>\<open>transpose\<close> builds the new object with
  \<^verbatim>\<open>BaseConnectivity(self.N_dest, self.N_dest)\<close>.
\<close>

theorem transpose_twice_shape:
  "transpose_conn (Uid 1) conn_ex = Inr conn_ex_T
   \<and> transpose_conn (Uid 2) conn_ex_T = Inr (conn_ex\<lparr>cid := Uid 2, N_src := 3\<rparr>)
   \<and> shape (conn_ex\<lparr>cid := Uid 2, N_src := 3\<rparr>) = (3, 3)
   \<and> shape conn_ex = (2, 3)"
  by (simp add: transpose_conn_def BaseConnectivity_init_def make_matrix_def make_key_def
      conn_ex_def conn_ex_T_def flip_plus flip_minus mat_T_def shape_def)

text \<open>In general the transposed object is square, and its \<^verbatim>\<open>N_mult\<close> is 1.\<close>

lemma transpose_loop_dims:
  "transpose_loop ks d c = Inr t \<Longrightarrow>
     N_src t = N_src c \<and> N_dest t = N_dest c \<and> N_mult t = N_mult c \<and> cid t = cid c"
  by (induction ks arbitrary: c) (auto split: sum.splits option.splits prod.splits if_splits)

lemma transpose_conn_shape:
  "transpose_conn u c = Inr t \<Longrightarrow> shape t = (N_dest c, N_dest c) \<and> N_mult t = 1"
  by (auto simp: transpose_conn_def BaseConnectivity_init_def shape_def
      split: sum.splits if_splits dest!: transpose_loop_dims)

text \<open>
  Claim C8. \<^verbatim>\<open>add_conn\<close> fails whenever \<^verbatim>\<open>conn\<close> is not a connectivity object (with
  \<^verbatim>\<open>ValueError\<close>, whatever the direction) and whenever the direction is neither
  \<^verbatim>\<open>'in'\<close> nor \<^verbatim>\<open>'out'\<close> (for a connectivity object with the \<^verbatim>\<open>KeyError\<close> of the
  lookup in \<^verbatim>\<open>conn_dict\<close>); both are invalid-argument failures raised at the caller,
  and no module results. With a connectivity object and one of the two directions it
  stores the object under the peer ID in the map of that direction.
\<close>

theorem add_conn_cases:
  "((\<forall>c. conn \<noteq> ConnObj c) \<longrightarrow> add_conn m conn conn_type i = Inl ValueError)
   \<and> (conn_type \<noteq> ''in'' \<and> conn_type \<noteq> ''out'' \<longrightarrow>
        add_conn m (ConnObj c) conn_type i = Inl KeyError)
   \<and> add_conn m (ConnObj c) ''in'' i = Inr (m\<lparr>conn_in := dict_set i c (conn_in m)\<rparr>)
   \<and> add_conn m (ConnObj c) ''out'' i = Inr (m\<lparr>conn_out := dict_set i c (conn_out m)\<rparr>)"
  by (cases conn) (simp_all add: add_conn_def)

lemma map_of_dict_set: "map_of (dict_set k v kvs) = (map_of kvs)(k \<mapsto> v)"
  by (induction kvs) auto

lemma keys_dict_set:
  "map fst (dict_set k v kvs) = (if k \<in> set (map fst kvs) then map fst kvs else map fst kvs @ [k])"
  by (induction kvs) force+

lemma distinct_dict_set: "distinct (map fst kvs) \<Longrightarrow> distinct (map fst (dict_set k v kvs))"
  by (simp add: keys_dict_set)

theorem add_conn_cases_witness:
  "add_conn mod_ex OtherObj ''in'' (Raw ''m4'') = Inl ValueError
   \<and> add_conn mod_ex (ConnObj conn_ex) ''sideways'' (Raw ''m4'') = Inl KeyError
   \<and> add_conn mod_ex (ConnObj conn_ex) ''in'' (Raw ''m4'') =
        Inr (mod_ex\<lparr>conn_in := [(Raw ''m2'', conn_ex), (Raw ''m3'', conn_ex), (Raw ''m4'', conn_ex)]\<rparr>)"
  using add_conn_cases [of OtherObj mod_ex "''in''" "Raw ''m4''" conn_ex]
    add_conn_cases [of "ConnObj conn_ex" mod_ex "''sideways''" "Raw ''m4''" conn_ex]
  by (simp add: mod_ex_def)

section \<open>Properties of \<^verbatim>\<open>connect\<close>\<close>

lemma transpose_loop_cid:
  "transpose_loop ks d (c\<lparr>cid := u\<rparr>) =
     (case transpose_loop ks d c of Inl e \<Rightarrow> Inl e | Inr t \<Rightarrow> Inr (t\<lparr>cid := u\<rparr>))"
proof (induction ks arbitrary: c)
  case Nil
  then show ?case by simp
next
  case (Cons k ks)
  show ?case
  proof (cases "flip_key k")
    case (Inl e)
    then show ?thesis by simp
  next
    case (Inr p)
    obtain nd nk where p: "p = (nd, nk)" by (cases p)
    show ?thesis
    proof (cases "map_of d k")
      case None
      then show ?thesis using Inr p by simp
    next
      case (Some m)
      have comm:
        "c\<lparr>c_data := X, keys_plus := Y, cid := u\<rparr> = c\<lparr>cid := u, c_data := X, keys_plus := Y\<rparr>"
        "c\<lparr>c_data := X, keys_minus := Y, cid := u\<rparr> = c\<lparr>cid := u, c_data := X, keys_minus := Y\<rparr>"
        for X Y by (cases c, simp)+
      show ?thesis
        using Inr p Some
          Cons.IH [of "c\<lparr>c_data := dict_set nk (mat_T m) (c_data c), keys_plus := keys_plus c @ [nk]\<rparr>"]
          Cons.IH [of "c\<lparr>c_data := dict_set nk (mat_T m) (c_data c), keys_minus := keys_minus c @ [nk]\<rparr>"]
        by (simp add: comm)
    qed
  qed
qed

lemma transpose_conn_cid:
  "transpose_conn u c =
     (case transpose_conn u' c of Inl e \<Rightarrow> Inl e | Inr t \<Rightarrow> Inr (t\<lparr>cid := u\<rparr>))"
proof -
  have init: "BaseConnectivity_init u a b n =
      (case BaseConnectivity_init u' a b n of Inl e \<Rightarrow> Inl e | Inr t \<Rightarrow> Inr (t\<lparr>cid := u\<rparr>))"
    for a b n
    by (simp add: BaseConnectivity_init_def split: sum.splits)
  show ?thesis
  proof (cases "BaseConnectivity_init u' (N_dest c) (N_dest c) 1")
    case (Inl e)
    then show ?thesis using init [of "N_dest c" "N_dest c" 1] by (simp add: transpose_conn_def)
  next
    case (Inr t0)
    then have "BaseConnectivity_init u (N_dest c) (N_dest c) 1 = Inr (t0\<lparr>cid := u\<rparr>)"
      using init [of "N_dest c" "N_dest c" 1] by simp
    then have i: "BaseConnectivity_init u (N_dest c) (N_dest c) 1 = Inr (t0\<lparr>cid := u\<rparr>)" .
    have comm: "t0\<lparr>keys_plus := [], keys_minus := [], cid := u\<rparr> =
        t0\<lparr>cid := u, keys_plus := [], keys_minus := []\<rparr>"
      by (cases t0) simp
    show ?thesis
      using Inr i transpose_loop_cid [where ks = "map fst (c_data c)" and d = "c_data c"
          and c = "t0\<lparr>keys_plus := [], keys_minus := []\<rparr>" and u = u]
      by (simp add: transpose_conn_def comm)
  qed
qed

lemma transposable_any_id:
  assumes "transposable c"
  shows "\<exists>t. transpose_conn u c = Inr t"
proof -
  from assms obtain t where "transpose_conn (cid c) c = Inr t"
    by (auto simp: transposable_def split: sum.splits)
  then show ?thesis using transpose_conn_cid [of u c "cid c"] by simp
qed

lemma promoted_le_refl: "promoted_le a a"
  by (cases a) (simp_all add: promoted_le_def)

lemma promoted_le_trans: "promoted_le a b \<Longrightarrow> promoted_le b c \<Longrightarrow> promoted_le a c"
  by (cases a; cases b; cases c) (simp_all add: promoted_le_def)

lemma promoted_le_Full: "promoted_le a Full"
  by (cases a) (simp_all add: promoted_le_def)

lemma promoted_le_NetNone: "promoted_le NetNone a"
  by (simp add: promoted_le_def)

lemma nets_promoted_refl: "nets_promoted w w"
  by (simp add: nets_promoted_def promoted_le_refl)

lemma nets_promoted_trans:
  "nets_promoted w w' \<Longrightarrow> nets_promoted w' w'' \<Longrightarrow> nets_promoted w w''"
  unfolding nets_promoted_def by (meson promoted_le_trans)

lemma nets_promoted_heap: "heap w' = heap w \<Longrightarrow> nets_promoted w w'"
  by (simp add: nets_promoted_def promoted_le_refl)

lemma nets_promoted_set_net:
  "(\<And>m. heap w i = Some m \<Longrightarrow> promoted_le (net m) v) \<Longrightarrow> nets_promoted w (set_net i v w)"
  by (auto simp: nets_promoted_def set_net_def promoted_le_refl split: option.splits)

lemma nets_promoted_promote: "nets_promoted w (promote i first other w)"
  unfolding promote_def
  by (auto simp: net_of_def promoted_le_Full promoted_le_NetNone nets_promoted_refl
      intro!: nets_promoted_set_net)

lemma nets_promoted_mod_add_conn: "nets_promoted w (fst (mod_add_conn i conn t peer w))"
  by (auto simp: nets_promoted_def mod_add_conn_def add_conn_def promoted_le_refl
      split: option.splits sum.splits pyobj.splits if_splits)

lemma nets_promoted_and_then:
  "nets_promoted w (fst r) \<Longrightarrow> (\<And>w1. nets_promoted w1 (fst (f w1))) \<Longrightarrow>
     nets_promoted w (fst (and_then r f))"
  by (cases r) (auto simp: and_then_def split: option.splits intro: nets_promoted_trans)

lemma nets_promoted_wire: "nets_promoted w (fst (wire s d c t1 t2 w))"
  unfolding wire_def
proof (rule nets_promoted_and_then [OF nets_promoted_mod_add_conn])
  fix w1
  have "nets_promoted w1 (w1\<lparr>next_uid := Suc (next_uid w1)\<rparr>)"
    by (rule nets_promoted_heap) simp
  moreover have "nets_promoted (w1\<lparr>next_uid := Suc (next_uid w1)\<rparr>)
      (fst (mod_add_conn d (ConnObj t) t2 s (w1\<lparr>next_uid := Suc (next_uid w1)\<rparr>)))" for t
    by (rule nets_promoted_mod_add_conn)
  ultimately show "nets_promoted w1
      (fst (case transpose_conn (Uid (next_uid w1)) c of
              Inl e \<Rightarrow> (w1\<lparr>next_uid := Suc (next_uid w1)\<rparr>, Some e)
            | Inr t \<Rightarrow> mod_add_conn d (ConnObj t) t2 s (w1\<lparr>next_uid := Suc (next_uid w1)\<rparr>)))"
    by (auto split: sum.splits intro: nets_promoted_trans)
qed

lemma heap_register: "heap (register s d c w) = heap w"
  by (simp add: register_def Let_def add_mod_def man_add_conn_def)

lemma heap_add_route: "heap (add_route a b w) = heap w"
  by (simp add: add_route_def)

lemma nets_promoted_connect: "nets_promoted w (fst (connect w m_src m_dest conn dir))"
proof (cases "\<exists>s d c. m_src = ModuleRef s \<and> m_dest = ModuleRef d \<and> conn = ConnObj c
    \<and> heap w s \<noteq> None \<and> heap w d \<noteq> None")
  case False
  then show ?thesis
    by (auto simp: connect_def nets_promoted_refl split: pyobj.splits)
next
  case True
  then obtain s d c where args: "m_src = ModuleRef s" "m_dest = ModuleRef d" "conn = ConnObj c"
    and ex: "heap w s \<noteq> None" "heap w d \<noteq> None" by blast
  define w0 where "w0 = register s d c w"
  have r: "nets_promoted w w0" unfolding w0_def by (rule nets_promoted_heap) (rule heap_register)
  have a: "nets_promoted v (add_route x y v)" for x y v
    by (rule nets_promoted_heap) (rule heap_add_route)
  have plus: "nets_promoted w
      (fst (wire s d c ''out'' ''in'' (promote d In Out (promote s Out In (add_route s d w0)))))"
    by (meson r a nets_promoted_promote nets_promoted_wire nets_promoted_trans)
  have minus: "nets_promoted w
      (fst (wire s d c ''in'' ''out'' (promote d Out In (promote s In Out (add_route d s w0)))))"
    by (meson r a nets_promoted_promote nets_promoted_wire nets_promoted_trans)
  have full: "nets_promoted v (set_net i Full v)" for i v
    by (rule nets_promoted_set_net) (rule promoted_le_Full)
  have both1: "nets_promoted w
      (fst (wire s d c ''out'' ''in''
         (set_net d Full (set_net s Full (add_route d s (add_route s d w0))))))"
    by (meson r a full nets_promoted_wire nets_promoted_trans)
  have both: "nets_promoted w
      (fst (and_then (wire s d c ''out'' ''in''
         (set_net d Full (set_net s Full (add_route d s (add_route s d w0)))))
         (wire s d c ''in'' ''out'')))"
    by (rule nets_promoted_and_then [OF both1]) (rule nets_promoted_wire)
  show ?thesis
    using ex plus minus both r
    by (auto simp: connect_def args Let_def w0_def [symmetric] nets_promoted_refl)
qed

lemma nets_promoted_connect_calls: "nets_promoted w (connect_calls w calls)"
proof (induction calls arbitrary: w)
  case Nil
  show ?case by (simp add: nets_promoted_refl)
next
  case (Cons call calls)
  obtain a b c dir where call: "call = (a, b, c, dir)" by (cases call)
  show ?case
    using nets_promoted_connect [of w a b c dir] Cons.IH [of "fst (connect w a b c dir)"]
    by (auto simp: call intro: nets_promoted_trans)
qed

text \<open>
  Claim C6, as amended. Over any sequence of \<^verbatim>\<open>connect\<close> calls, with any arguments and
  whether or not a call raises, every module keeps existing and its net mode moves only
  upwards in the order generated by \<open>none \<rightarrow> in | out | ctrl\<close>, \<open>in \<rightarrow> full\<close>,
  \<open>out \<rightarrow> full\<close> and \<open>ctrl \<rightarrow> full\<close>: no call demotes a module.
\<close>

theorem connect_never_demotes:
  assumes "heap w i = Some m"
  shows "\<exists>m'. heap (connect_calls w calls) i = Some m' \<and> promoted_le (net m) (net m')"
  using nets_promoted_connect_calls [of w calls] assms by (simp add: nets_promoted_def)

lemma transpose_conn_ex: "transpose_conn u conn_ex = Inr (conn_ex_T\<lparr>cid := u\<rparr>)"
  by (simp add: transpose_conn_def BaseConnectivity_init_def make_matrix_def make_key_def
      conn_ex_def conn_ex_T_def flip_plus flip_minus mat_T_def)

lemma transposable_conn_ex: "transposable conn_ex"
  by (simp add: transposable_def transpose_conn_ex)

lemma heap_world_ex:
  "heap world_ex (Raw ''m1'') = Some mod_a" "heap world_ex (Raw ''m2'') = Some mod_b"
  by (simp_all add: world_ex_def)

lemma connect_eq_ex:
  "net_of (fst (connect world_ex (ModuleRef (Raw ''m1'')) (ModuleRef (Raw ''m2''))
       (ConnObj conn_ex) ''='')) (Raw ''m1'') = Some Full"
  by (simp add: connect_def heap_world_ex Let_def wire_def and_then_def mod_add_conn_def
      set_net_def add_route_def heap_register add_conn_def transpose_conn_ex net_of_def mod_a_def mod_b_def)

lemma connect_plus_ex:
  "net_of (fst (connect world_ex (ModuleRef (Raw ''m1'')) (ModuleRef (Raw ''m2''))
       (ConnObj conn_ex) ''+'')) (Raw ''m1'') = Some Ctrl"
  by (simp add: connect_def heap_world_ex Let_def wire_def and_then_def mod_add_conn_def
      set_net_def add_route_def heap_register add_conn_def transpose_conn_ex net_of_def mod_a_def mod_b_def
      promote_def)

theorem connect_never_demotes_witness:
  "\<exists>m'. heap (connect_calls world_ex
        [(ModuleRef (Raw ''m1''), ModuleRef (Raw ''m2''), ConnObj conn_ex, ''+''),
         (ModuleRef (Raw ''m2''), OtherObj, ConnObj conn_ex, ''=''),
         (ModuleRef (Raw ''m2''), ModuleRef (Raw ''m1''), ConnObj conn_ex, ''='')])
      (Raw ''m2'') = Some m' \<and> promoted_le (net mod_b) (net m')"
  using connect_never_demotes [of world_ex "Raw ''m2''" mod_b
      "[(ModuleRef (Raw ''m1''), ModuleRef (Raw ''m2''), ConnObj conn_ex, ''+''),
        (ModuleRef (Raw ''m2''), OtherObj, ConnObj conn_ex, ''=''),
        (ModuleRef (Raw ''m2''), ModuleRef (Raw ''m1''), ConnObj conn_ex, ''='')]"]
  by (simp add: heap_world_ex)

text \<open>
  Claim C6 as stated lists the arrows \<open>none \<rightarrow> in | out | ctrl\<close>, \<open>in \<rightarrow> full\<close> and
  \<open>out \<rightarrow> full\<close> only. A call with direction \<^verbatim>\<open>=\<close> assigns \<^verbatim>\<open>full\<close> to both modules
  whatever their mode, so a module in mode \<^verbatim>\<open>ctrl\<close> moves to \<^verbatim>\<open>full\<close>, which those
  arrows do not allow.
\<close>

theorem ctrl_to_full_counterexample:
  "net_of world_ex (Raw ''m1'') = Some Ctrl
   \<and> net_of (connect_calls world_ex
        [(ModuleRef (Raw ''m1''), ModuleRef (Raw ''m2''), ConnObj conn_ex, ''='')])
      (Raw ''m1'') = Some Full
   \<and> \<not> lattice_le Ctrl Full"
  using connect_eq_ex by (simp add: net_of_def heap_world_ex mod_a_def)

section \<open>The direction \<^verbatim>\<open>=\<close> against \<^verbatim>\<open>+\<close> followed by \<^verbatim>\<open>-\<close>\<close>

lemma heap_upd_mod:
  "heap (upd_mod i f w) j = (if j = i then map_option f (heap w i) else heap w j)"
  by (simp add: upd_mod_def)

lemma man_upd_mod: "man (upd_mod i f w) = man w"
  by (simp add: upd_mod_def)

lemma next_uid_upd_mod: "next_uid (upd_mod i f w) = next_uid w"
  by (simp add: upd_mod_def)

lemma man_add_route:
  "man (add_route a b w) = (man w)\<lparr>routing_table := rt_setitem (routing_table (man w)) (a, b) 1\<rparr>"
  by (simp add: add_route_def)

lemma next_uid_add_route: "next_uid (add_route a b w) = next_uid w"
  by (simp add: add_route_def)

lemma world_eqI:
  fixes a b :: world
  shows "heap a = heap b \<Longrightarrow> man a = man b \<Longrightarrow> next_uid a = next_uid b \<Longrightarrow> a = b"
  by simp

lemma set_net_upd: "set_net i v w = upd_mod i (\<lambda>m. m\<lparr>net := v\<rparr>) w"
  by (rule world_eqI) (auto simp: set_net_def upd_mod_def split: option.splits)

lemma promote_upd:
  "promote i first other w =
     upd_mod i (\<lambda>m. if net m = NetNone then m\<lparr>net := first\<rparr>
                     else if net m = other then m\<lparr>net := Full\<rparr> else m) w"
  by (rule world_eqI)
     (auto simp: promote_def net_of_def set_net_def upd_mod_def split: option.splits)

lemma mod_add_conn_in_upd:
  "heap w i \<noteq> None \<Longrightarrow>
   mod_add_conn i (ConnObj c) ''in'' p w =
     (upd_mod i (\<lambda>m. m\<lparr>conn_in := dict_set p c (conn_in m)\<rparr>) w, None)"
  by (auto simp: mod_add_conn_def add_conn_def upd_mod_def)

lemma mod_add_conn_out_upd:
  "heap w i \<noteq> None \<Longrightarrow>
   mod_add_conn i (ConnObj c) ''out'' p w =
     (upd_mod i (\<lambda>m. m\<lparr>conn_out := dict_set p c (conn_out m)\<rparr>) w, None)"
  by (auto simp: mod_add_conn_def add_conn_def upd_mod_def)

lemma wire_out_in_upd:
  assumes "heap w s \<noteq> None" "heap w d \<noteq> None"
    and "transpose_conn (Uid (next_uid w)) c = Inr t"
  shows "wire s d c ''out'' ''in'' w =
     (upd_mod d (\<lambda>m. m\<lparr>conn_in := dict_set s t (conn_in m)\<rparr>)
        ((upd_mod s (\<lambda>m. m\<lparr>conn_out := dict_set d c (conn_out m)\<rparr>) w)
           \<lparr>next_uid := Suc (next_uid w)\<rparr>), None)"
proof -
  let ?w1 = "upd_mod s (\<lambda>m. m\<lparr>conn_out := dict_set d c (conn_out m)\<rparr>) w"
  have "heap (?w1\<lparr>next_uid := Suc (next_uid w)\<rparr>) d \<noteq> None"
    using assms(1,2) by (auto simp: heap_upd_mod)
  from mod_add_conn_in_upd [OF this, of t s] show ?thesis
    using assms(3) by (simp add: wire_def mod_add_conn_out_upd [OF assms(1)] and_then_def
        next_uid_upd_mod)
qed

lemma wire_in_out_upd:
  assumes "heap w s \<noteq> None" "heap w d \<noteq> None"
    and "transpose_conn (Uid (next_uid w)) c = Inr t"
  shows "wire s d c ''in'' ''out'' w =
     (upd_mod d (\<lambda>m. m\<lparr>conn_out := dict_set s t (conn_out m)\<rparr>)
        ((upd_mod s (\<lambda>m. m\<lparr>conn_in := dict_set d c (conn_in m)\<rparr>) w)
           \<lparr>next_uid := Suc (next_uid w)\<rparr>), None)"
proof -
  let ?w1 = "upd_mod s (\<lambda>m. m\<lparr>conn_in := dict_set d c (conn_in m)\<rparr>) w"
  have "heap (?w1\<lparr>next_uid := Suc (next_uid w)\<rparr>) d \<noteq> None"
    using assms(1,2) by (auto simp: heap_upd_mod)
  from mod_add_conn_out_upd [OF this, of t s] show ?thesis
    using assms(3) by (simp add: wire_def mod_add_conn_in_upd [OF assms(1)] and_then_def
        next_uid_upd_mod)
qed

lemma next_uid_register: "next_uid (register s d c w) = next_uid w"
  by (simp add: register_def Let_def add_mod_def man_add_conn_def)

lemma keys_dict_set_mem: "k \<in> fst ` set (dict_set k v kvs)"
  by (induction kvs) force+

lemma registered_register:
  "s \<in> set (mod_dict (man (register s d c w)))"
  "d \<in> set (mod_dict (man (register s d c w)))"
  "cid c \<in> fst ` set (conn_dict (man (register s d c w)))"
  by (auto simp: register_def Let_def add_mod_def man_add_conn_def keys_dict_set_mem)

lemma register_again:
  "s \<in> set (mod_dict (man w)) \<Longrightarrow> d \<in> set (mod_dict (man w)) \<Longrightarrow>
   cid c \<in> fst ` set (conn_dict (man w)) \<Longrightarrow> register s d c w = w"
  by (simp add: register_def)

lemma connect_plus_upd:
  assumes "heap w s \<noteq> None" "heap w d \<noteq> None"
    and "transpose_conn (Uid (next_uid w)) c = Inr t"
  shows "connect w (ModuleRef s) (ModuleRef d) (ConnObj c) ''+'' =
     (upd_mod d (\<lambda>m. m\<lparr>conn_in := dict_set s t (conn_in m)\<rparr>)
        ((upd_mod s (\<lambda>m. m\<lparr>conn_out := dict_set d c (conn_out m)\<rparr>)
           (promote d In Out (promote s Out In (add_route s d (register s d c w)))))
           \<lparr>next_uid := Suc (next_uid w)\<rparr>), None)"
proof -
  let ?w = "promote d In Out (promote s Out In (add_route s d (register s d c w)))"
  have h: "heap ?w s \<noteq> None" "heap ?w d \<noteq> None"
    using assms(1,2) by (auto simp: promote_upd heap_upd_mod heap_add_route heap_register)
  have u: "next_uid ?w = next_uid w"
    by (simp add: promote_upd next_uid_upd_mod next_uid_add_route next_uid_register)
  from assms(3) u have t: "transpose_conn (Uid (next_uid ?w)) c = Inr t" by simp
  show ?thesis
    using assms(1,2) wire_out_in_upd [OF h t] u by (simp add: connect_def)
qed

lemma connect_minus_upd:
  assumes "heap w s \<noteq> None" "heap w d \<noteq> None"
    and "transpose_conn (Uid (next_uid w)) c = Inr t"
  shows "connect w (ModuleRef s) (ModuleRef d) (ConnObj c) ''-'' =
     (upd_mod d (\<lambda>m. m\<lparr>conn_out := dict_set s t (conn_out m)\<rparr>)
        ((upd_mod s (\<lambda>m. m\<lparr>conn_in := dict_set d c (conn_in m)\<rparr>)
           (promote d Out In (promote s In Out (add_route d s (register s d c w)))))
           \<lparr>next_uid := Suc (next_uid w)\<rparr>), None)"
proof -
  let ?w = "promote d Out In (promote s In Out (add_route d s (register s d c w)))"
  have h: "heap ?w s \<noteq> None" "heap ?w d \<noteq> None"
    using assms(1,2) by (auto simp: promote_upd heap_upd_mod heap_add_route heap_register)
  have u: "next_uid ?w = next_uid w"
    by (simp add: promote_upd next_uid_upd_mod next_uid_add_route next_uid_register)
  from assms(3) u have t: "transpose_conn (Uid (next_uid ?w)) c = Inr t" by simp
  show ?thesis
    using assms(1,2) wire_in_out_upd [OF h t] u by (simp add: connect_def)
qed

lemma connect_both_upd:
  assumes "heap w s \<noteq> None" "heap w d \<noteq> None"
    and "transpose_conn (Uid (next_uid w)) c = Inr t1"
    and "transpose_conn (Uid (Suc (next_uid w))) c = Inr t2"
  shows "connect w (ModuleRef s) (ModuleRef d) (ConnObj c) ''='' =
     (upd_mod d (\<lambda>m. m\<lparr>conn_out := dict_set s t2 (conn_out m)\<rparr>)
        ((upd_mod s (\<lambda>m. m\<lparr>conn_in := dict_set d c (conn_in m)\<rparr>)
           (upd_mod d (\<lambda>m. m\<lparr>conn_in := dict_set s t1 (conn_in m)\<rparr>)
              ((upd_mod s (\<lambda>m. m\<lparr>conn_out := dict_set d c (conn_out m)\<rparr>)
                 (set_net d Full (set_net s Full
                    (add_route d s (add_route s d (register s d c w))))))
                 \<lparr>next_uid := Suc (next_uid w)\<rparr>)))
           \<lparr>next_uid := Suc (Suc (next_uid w))\<rparr>), None)"
proof -
  let ?w = "set_net d Full (set_net s Full (add_route d s (add_route s d (register s d c w))))"
  have h: "heap ?w s \<noteq> None" "heap ?w d \<noteq> None"
    using assms(1,2) by (auto simp: set_net_upd heap_upd_mod heap_add_route heap_register)
  have u: "next_uid ?w = next_uid w"
    by (simp add: set_net_upd next_uid_upd_mod next_uid_add_route next_uid_register)
  from assms(3) u have t: "transpose_conn (Uid (next_uid ?w)) c = Inr t1" by simp
  let ?w1 = "upd_mod d (\<lambda>m. m\<lparr>conn_in := dict_set s t1 (conn_in m)\<rparr>)
        ((upd_mod s (\<lambda>m. m\<lparr>conn_out := dict_set d c (conn_out m)\<rparr>) ?w)
           \<lparr>next_uid := Suc (next_uid w)\<rparr>)"
  have w1: "wire s d c ''out'' ''in'' ?w = (?w1, None)"
    using wire_out_in_upd [OF h t] u by simp
  have h1: "heap ?w1 s \<noteq> None" "heap ?w1 d \<noteq> None"
    using h by (auto simp: heap_upd_mod)
  have u1: "next_uid ?w1 = Suc (next_uid w)"
    by (simp add: next_uid_upd_mod)
  from assms(4) u1 have t': "transpose_conn (Uid (next_uid ?w1)) c = Inr t2" by simp
  have "connect w (ModuleRef s) (ModuleRef d) (ConnObj c) ''='' = wire s d c ''in'' ''out'' ?w1"
    using assms(1,2) w1 by (auto simp: connect_def and_then_def)
  then show ?thesis
    using wire_in_out_upd [OF h1 t'] u1 by simp
qed


text \<open>
  Claim C5, as amended. Let \<open>s\<close> and \<open>d\<close> name module objects (possibly the same one) whose
  net mode is not \<^verbatim>\<open>ctrl\<close>, and let \<open>c\<close> be a connectivity object that can be transposed.
  Then \<^verbatim>\<open>connect(src, dst, c, '=')\<close> raises nothing and leaves exactly the world that
  \<^verbatim>\<open>connect(src, dst, c, '+')\<close> followed by \<^verbatim>\<open>connect(src, dst, c, '-')\<close> leaves: the same
  routing table, the same net modes, the same connectivity objects under the same peers in
  both maps of both modules, and the same registrations.
\<close>

theorem connect_both_is_plus_then_minus:
  assumes "heap w s = Some ms" and "heap w d = Some md"
    and "net ms \<noteq> Ctrl" and "net md \<noteq> Ctrl"
    and "transposable c"
  shows "connect w (ModuleRef s) (ModuleRef d) (ConnObj c) ''='' =
           and_then (connect w (ModuleRef s) (ModuleRef d) (ConnObj c) ''+'')
             (\<lambda>w1. connect w1 (ModuleRef s) (ModuleRef d) (ConnObj c) ''-'')
         \<and> snd (connect w (ModuleRef s) (ModuleRef d) (ConnObj c) ''='') = None"
proof -
  define w0 where "w0 = register s d c w"
  have h0: "heap w0 = heap w" and u0: "next_uid w0 = next_uid w"
    by (simp_all add: w0_def heap_register next_uid_register)
  have reg: "s \<in> set (mod_dict (man w0))" "d \<in> set (mod_dict (man w0))"
    "cid c \<in> fst ` set (conn_dict (man w0))"
    by (simp_all add: w0_def registered_register)
  obtain t1 where t1: "transpose_conn (Uid (next_uid w)) c = Inr t1"
    using transposable_any_id [OF assms(5)] by blast
  obtain t2 where t2: "transpose_conn (Uid (Suc (next_uid w))) c = Inr t2"
    using transposable_any_id [OF assms(5)] by blast
  have ex: "heap w s \<noteq> None" "heap w d \<noteq> None" using assms(1,2) by simp_all
  define outS :: "module \<Rightarrow> module" where "outS = (\<lambda>m. m\<lparr>conn_out := dict_set d c (conn_out m)\<rparr>)"
  define inS :: "module \<Rightarrow> module" where "inS = (\<lambda>m. m\<lparr>conn_in := dict_set d c (conn_in m)\<rparr>)"
  define inD :: "module \<Rightarrow> module" where "inD = (\<lambda>m. m\<lparr>conn_in := dict_set s t1 (conn_in m)\<rparr>)"
  define outD :: "module \<Rightarrow> module" where "outD = (\<lambda>m. m\<lparr>conn_out := dict_set s t2 (conn_out m)\<rparr>)"
  define k where "k = next_uid w"
  \<comment> \<open>the world after the call with \<open>=\<close>\<close>
  define E where "E = upd_mod d outD ((upd_mod s inS (upd_mod d inD
      ((upd_mod s outS (set_net d Full (set_net s Full (add_route d s (add_route s d w0)))))
         \<lparr>next_uid := Suc k\<rparr>)))\<lparr>next_uid := Suc (Suc k)\<rparr>)"
  \<comment> \<open>the world after the call with \<open>+\<close>\<close>
  define P where "P = upd_mod d inD ((upd_mod s outS
      (promote d In Out (promote s Out In (add_route s d w0))))\<lparr>next_uid := Suc k\<rparr>)"
  \<comment> \<open>the world after the call with \<open>-\<close> that follows\<close>
  define M where "M = upd_mod d outD ((upd_mod s inS
      (promote d Out In (promote s In Out (add_route d s P))))\<lparr>next_uid := Suc (Suc k)\<rparr>)"
  have both: "connect w (ModuleRef s) (ModuleRef d) (ConnObj c) ''='' = (E, None)"
    using connect_both_upd [OF ex t1 t2]
    by (simp add: E_def w0_def outS_def inS_def inD_def outD_def k_def)
  have plus: "connect w (ModuleRef s) (ModuleRef d) (ConnObj c) ''+'' = (P, None)"
    using connect_plus_upd [OF ex t1]
    by (simp add: P_def w0_def outS_def inD_def k_def)
  have exP: "heap P s \<noteq> None" "heap P d \<noteq> None"
    using ex by (auto simp: P_def heap_upd_mod promote_upd heap_add_route h0)
  have uP: "next_uid P = Suc k" by (simp add: P_def next_uid_upd_mod)
  have manP: "man P = man (add_route s d w0)"
    by (simp add: P_def man_upd_mod promote_upd)
  have regP: "register s d c P = P"
    by (rule register_again) (simp_all add: manP man_add_route reg)
  have t2': "transpose_conn (Uid (next_uid P)) c = Inr t2" using t2 uP by (simp add: k_def)
  have minus: "connect P (ModuleRef s) (ModuleRef d) (ConnObj c) ''-'' = (M, None)"
    using connect_minus_upd [OF exP t2']
    by (simp add: M_def regP uP inS_def outD_def)
  have "E = M"
  proof (rule world_eqI)
    show "next_uid E = next_uid M" by (simp add: E_def M_def next_uid_upd_mod)
    show "man E = man M"
      by (simp add: E_def M_def man_upd_mod set_net_upd promote_upd man_add_route manP)
    show "heap E = heap M"
    proof (cases "s = d")
      case True
      with assms(1,2) have [simp]: "md = ms" by simp
      have n: "net ms = NetNone \<or> net ms = In \<or> net ms = Out \<or> net ms = Full"
        using assms(3) by (cases "net ms") simp_all
      show ?thesis
        using n assms(1) True
        by (auto simp: E_def M_def P_def heap_upd_mod set_net_upd promote_upd heap_add_route h0
            outS_def inS_def inD_def outD_def fun_eq_iff)
    next
      case False
      have n: "net ms = NetNone \<or> net ms = In \<or> net ms = Out \<or> net ms = Full"
        using assms(3) by (cases "net ms") simp_all
      have n': "net md = NetNone \<or> net md = In \<or> net md = Out \<or> net md = Full"
        using assms(4) by (cases "net md") simp_all
      show ?thesis
        using n n' assms(1,2) False
        by (auto simp: E_def M_def P_def heap_upd_mod set_net_upd promote_upd heap_add_route h0
            outS_def inS_def inD_def outD_def fun_eq_iff)
    qed
  qed
  then show ?thesis using both plus minus by (simp add: and_then_def)
qed

theorem connect_both_is_plus_then_minus_witness:
  "connect world_ok (ModuleRef (Raw ''m1'')) (ModuleRef (Raw ''m2'')) (ConnObj conn_ex) ''='' =
     and_then
       (connect world_ok (ModuleRef (Raw ''m1'')) (ModuleRef (Raw ''m2'')) (ConnObj conn_ex) ''+'')
       (\<lambda>w1. connect w1 (ModuleRef (Raw ''m1'')) (ModuleRef (Raw ''m2'')) (ConnObj conn_ex) ''-'')
   \<and> snd (connect world_ok (ModuleRef (Raw ''m1'')) (ModuleRef (Raw ''m2''))
          (ConnObj conn_ex) ''='') = None"
proof -
  have h1: "heap world_ok (Raw ''m1'') = Some (mod_a\<lparr>net := Out\<rparr>)"
    and h2: "heap world_ok (Raw ''m2'') = Some mod_b"
    by (simp_all add: world_ok_def)
  have n1: "net (mod_a\<lparr>net := Out\<rparr>) \<noteq> Ctrl" and n2: "net mod_b \<noteq> Ctrl"
    by (simp_all add: mod_b_def)
  show ?thesis
    by (rule connect_both_is_plus_then_minus [OF h1 h2 n1 n2 transposable_conn_ex])
qed

text \<open>
  Claim C5 as stated includes modules in mode \<^verbatim>\<open>ctrl\<close>. For such a module the two sides
  differ: the direction \<^verbatim>\<open>=\<close> assigns \<^verbatim>\<open>full\<close>, while the branches for \<^verbatim>\<open>+\<close> and
  \<^verbatim>\<open>-\<close> test for \<^verbatim>\<open>none\<close>, \<^verbatim>\<open>in\<close> and \<^verbatim>\<open>out\<close> only and leave \<^verbatim>\<open>ctrl\<close> as it is.
\<close>

theorem connect_both_ctrl_counterexample:
  "net_of (fst (connect world_ex (ModuleRef (Raw ''m1'')) (ModuleRef (Raw ''m2''))
        (ConnObj conn_ex) ''='')) (Raw ''m1'') = Some Full
   \<and> net_of (fst (and_then
        (connect world_ex (ModuleRef (Raw ''m1'')) (ModuleRef (Raw ''m2'')) (ConnObj conn_ex) ''+'')
        (\<lambda>w1. connect w1 (ModuleRef (Raw ''m1'')) (ModuleRef (Raw ''m2'')) (ConnObj conn_ex) ''-'')))
      (Raw ''m1'') = Some Ctrl"
proof -
  have "net_of (fst (and_then
        (connect world_ex (ModuleRef (Raw ''m1'')) (ModuleRef (Raw ''m2'')) (ConnObj conn_ex) ''+'')
        (\<lambda>w1. connect w1 (ModuleRef (Raw ''m1'')) (ModuleRef (Raw ''m2'')) (ConnObj conn_ex) ''-'')))
      (Raw ''m1'') = Some Ctrl"
    by (simp add: connect_def heap_world_ex Let_def wire_def and_then_def mod_add_conn_def
      set_net_def add_route_def heap_register add_conn_def transpose_conn_ex net_of_def
      mod_a_def mod_b_def promote_def)
  then show ?thesis using connect_eq_ex by simp
qed

section \<open>Which connectivity objects can be transposed\<close>

text \<open>
  \<^verbatim>\<open>transpose\<close> succeeds exactly on the objects with a positive \<^verbatim>\<open>N_dest\<close> all of whose
  keys have a direction \<^verbatim>\<open>+\<close> or \<^verbatim>\<open>-\<close> at index 1.
\<close>

lemma transpose_loop_ok_iff:
  "(\<exists>t. transpose_loop ks d c = Inr t) \<longleftrightarrow>
     (\<forall>k \<in> set ks. (\<exists>p. flip_key k = Inr p) \<and> map_of d k \<noteq> None)"
proof (induction ks arbitrary: c)
  case Nil
  show ?case by simp
next
  case (Cons k ks)
  show ?case
  proof (cases "flip_key k")
    case (Inl e)
    then show ?thesis by simp
  next
    case (Inr p)
    obtain nd nk where p: "p = (nd, nk)" by (cases p)
    show ?thesis
    proof (cases "map_of d k")
      case None
      then show ?thesis using Inr p by simp
    next
      case (Some m)
      then show ?thesis using Inr p Cons.IH by simp
    qed
  qed
qed

lemma transposable_iff:
  "transposable c \<longleftrightarrow>
     0 < N_dest c \<and> (\<forall>k \<in> fst ` set (c_data c). \<exists>p. flip_key k = Inr p)"
proof -
  have keys: "map_of (c_data c) k \<noteq> None" if "k \<in> fst ` set (c_data c)" for k
    using that by (simp add: map_of_eq_None_iff)
  show ?thesis
  proof (cases "0 < N_dest c")
    case False
    then show ?thesis
      by (auto simp: transposable_def transpose_conn_def BaseConnectivity_init_def
          make_matrix_def)
  next
    case True
    then obtain c0 where c0: "BaseConnectivity_init (cid c) (N_dest c) (N_dest c) 1 = Inr c0"
      by (simp add: BaseConnectivity_init_def make_matrix_def)
    have "transposable c \<longleftrightarrow>
        (\<exists>t. transpose_loop (map fst (c_data c)) (c_data c)
               (c0\<lparr>keys_plus := [], keys_minus := []\<rparr>) = Inr t)"
      by (auto simp: transposable_def transpose_conn_def c0 split: sum.splits)
    then show ?thesis
      using True keys by (auto simp: transpose_loop_ok_iff)
  qed
qed

end
